theory Spec2Isabelle
  imports Main
begin

section \<open>JavaScript values and the host environment\<close>

text \<open>
  The widget of \<^verbatim>\<open>src/timeable.js\<close> is a class \<^verbatim>\<open>Timeable\<close> over three services of
  the host: the document (element lookup, text and class list of the element), the
  console, and the interval scheduler. Numbers are the integer-valued ones (\<open>int\<close>);
  fractional durations and \<^verbatim>\<open>NaN\<close> are outside the model. A JavaScript number is a
  double: it holds every integer up to \<open>2^53\<close> exactly, and on those the arithmetic
  and the printing below are the ones of the source. Beyond, \<^verbatim>\<open>remainingTime--\<close> can
  leave the value as it is and \<^verbatim>\<open>`${num}`\<close> prints rounded digits, where \<open>int\<close>
  does not; the theorems that state, for an arbitrary number, the value after a
  decrement or the digits printed carry the bound \<open>2^53\<close> as a hypothesis.

  Option values for the two callbacks are arbitrary JavaScript values. A function value
  is opaque: calling it is recorded in the host's call log with its arguments, and it
  returns without touching the widget.
\<close>

datatype js_value =
    JUndefined
  | JNull
  | JBool bool
  | JNumber int
  | JString string
  | JObject
  | JFunction nat

text \<open>\<^verbatim>\<open>if (v)\<close>: the falsy values are undefined, null, false, 0 and the empty string.\<close>

fun truthy :: "js_value \<Rightarrow> bool" where
  "truthy JUndefined = False"
| "truthy JNull = False"
| "truthy (JBool b) = b"
| "truthy (JNumber n) = (n \<noteq> 0)"
| "truthy (JString s) = (s \<noteq> [])"
| "truthy JObject = True"
| "truthy (JFunction f) = True"

text \<open>\<^verbatim>\<open>typeof v === 'function'\<close>\<close>

fun is_function :: "js_value \<Rightarrow> bool" where
  "is_function (JFunction f) = True"
| "is_function v = False"

datatype js_error = TypeError

datatype console_msg = ConsoleError string | ConsoleWarn string

text \<open>
  A handle returned by \<^verbatim>\<open>setInterval\<close>: a positive integer in a browser, an object in
  Node; truthy in both, so \<^verbatim>\<open>if (this.interval)\<close> tests for \<^verbatim>\<open>null\<close> only.
\<close>

datatype handle = Handle nat

record dom_element =
  classList :: "string list"
  innerText :: string

text \<open>\<^verbatim>\<open>classList.add\<close> and \<^verbatim>\<open>classList.remove\<close>: the class list is an ordered set of tokens.\<close>

definition classList_add :: "string \<Rightarrow> string list \<Rightarrow> string list" where
  "classList_add c cl = (if c \<in> set cl then cl else cl @ [c])"

definition classList_remove :: "string \<Rightarrow> string list \<Rightarrow> string list" where
  "classList_remove c cl = removeAll c cl"

text \<open>
  The host: the console's output, the interval timers that are live (each of them runs
  the widget's tick closure when it fires), the next handle the scheduler hands out, and
  the log of calls made to callback functions.
\<close>

record host =
  console :: "console_msg list"
  timers :: "handle list"
  next_handle :: nat
  calls :: "(nat \<times> js_value list) list"

definition setInterval :: "host \<Rightarrow> handle \<times> host" where
  "setInterval h =
     (let k = Handle (next_handle h)
      in (k, h\<lparr>timers := timers h @ [k], next_handle := Suc (next_handle h)\<rparr>))"

definition clearInterval :: "handle \<Rightarrow> host \<Rightarrow> host" where
  "clearInterval k h = h\<lparr>timers := removeAll k (timers h)\<rparr>"

definition console_warn :: "string \<Rightarrow> host \<Rightarrow> host" where
  "console_warn m h = h\<lparr>console := console h @ [ConsoleWarn m]\<rparr>"

definition console_error :: "string \<Rightarrow> host \<Rightarrow> host" where
  "console_error m h = h\<lparr>console := console h @ [ConsoleError m]\<rparr>"

text \<open>Calling a value: a function is logged with its arguments, anything else throws.\<close>

definition call_value :: "js_value \<Rightarrow> js_value list \<Rightarrow> host \<Rightarrow> js_error + host" where
  "call_value f args h =
     (case f of
        JFunction k \<Rightarrow> Inr (h\<lparr>calls := calls h @ [(k, args)]\<rparr>)
      | _ \<Rightarrow> Inl TypeError)"

section \<open>Strings and numbers\<close>

text \<open>\<^verbatim>\<open>s.includes(t)\<close>: \<open>t\<close> occurs in \<open>s\<close> as a contiguous substring.\<close>

fun str_includes :: "string \<Rightarrow> string \<Rightarrow> bool" where
  "str_includes [] t = (t = [])"
| "str_includes (c # s) t = (take (length t) (c # s) = t \<or> str_includes s t)"

text \<open>
  The template literal \<^verbatim>\<open>`${num}`\<close> of an integer: its decimal digits, with a sign.
  This is what the source prints for the integers up to \<open>2^53\<close>; above, a double's
  digits are rounded, and from \<open>10^21\<close> on they come with an exponent.
\<close>

definition digit_char :: "nat \<Rightarrow> char" where
  "digit_char d = ''0123456789'' ! d"

fun decimal :: "nat \<Rightarrow> string" where
  "decimal n = (if n < 10 then [digit_char n] else decimal (n div 10) @ [digit_char (n mod 10)])"

declare decimal.simps [simp del]

definition numToString :: "int \<Rightarrow> string" where
  "numToString num = (if num < 0 then CHR ''-'' # decimal (nat (- num)) else decimal (nat num))"

text \<open>
  The remainder operator \<^verbatim>\<open>a % b\<close>: the result has the sign of the dividend
  (truncated division), unlike \<open>mod\<close> on \<open>int\<close>.
\<close>

definition js_rem :: "int \<Rightarrow> int \<Rightarrow> int" where
  "js_rem a b = sgn a * (\<bar>a\<bar> mod \<bar>b\<bar>)"

section \<open>The widget\<close>

record timeable_options =
  opt_format :: "string option"
  opt_onComplete :: js_value
  opt_onTick :: js_value

text \<open>
  The fields of a constructed \<^verbatim>\<open>Timeable\<close>. The display element is owned by the widget
  alone, so the record holds the element's state itself.
\<close>

record timeable =
  element :: dom_element
  duration :: int
  remainingTime :: int
  interval :: "handle option"
  options :: timeable_options
  format :: string
  onComplete :: js_value
  onTick :: js_value

text \<open>\<^verbatim>\<open>padZero(num)\<close>\<close>

definition padZero :: "int \<Rightarrow> string" where
  "padZero num = (if num < 10 then ''0'' @ numToString num else numToString num)"

text \<open>
  \<^verbatim>\<open>formatTime(seconds)\<close>; the only field it reads is \<^verbatim>\<open>this.format\<close>, passed as \<open>fmt\<close>.
  \<^verbatim>\<open>Math.floor(x / y)\<close> of integers is \<open>div\<close> on \<open>int\<close>.
\<close>

definition formatTime :: "string \<Rightarrow> int \<Rightarrow> string" where
  "formatTime fmt seconds =
     (let hrs = seconds div 3600;
          mins = js_rem seconds 3600 div 60;
          secs = js_rem seconds 60;
          formattedTime = [];
          formattedTime = (if str_includes fmt ''hh''
                           then formattedTime @ padZero hrs @ '':'' else formattedTime);
          formattedTime = (if str_includes fmt ''mm''
                           then formattedTime @ padZero mins @ '':'' else formattedTime);
          formattedTime = (if str_includes fmt ''ss''
                           then formattedTime @ padZero secs else formattedTime)
      in formattedTime)"

text \<open>\<^verbatim>\<open>render()\<close> and \<^verbatim>\<open>updateDisplay()\<close>\<close>

definition render :: "timeable \<Rightarrow> timeable" where
  "render t =
     (let t = t\<lparr>element := (element t)
                \<lparr>classList := classList_add ''timeable-timer'' (classList (element t))\<rparr>\<rparr>
      in t\<lparr>element := (element t)\<lparr>innerText := formatTime (format t) (remainingTime t)\<rparr>\<rparr>)"

definition updateDisplay :: "timeable \<Rightarrow> timeable" where
  "updateDisplay t =
     t\<lparr>element := (element t)\<lparr>innerText := formatTime (format t) (remainingTime t)\<rparr>\<rparr>"

text \<open>
  The constructor. With no element under \<open>elementId\<close> it logs an error and returns
  at once: \<^verbatim>\<open>this.element\<close> is \<^verbatim>\<open>null\<close> and no other field exists (\<open>NoElement\<close>).
  \<^verbatim>\<open>options.format || 'mm:ss'\<close> takes the default for a missing and for an empty format.
\<close>

datatype timeable_instance = NoElement | Widget timeable

definition not_found_msg :: "string \<Rightarrow> string" where
  "not_found_msg elementId =
     ''Timeable Error: Element with ID '' @ [CHR 0x27] @ elementId @ [CHR 0x27] @ '' not found.''"

definition Timeable_new ::
  "(string \<rightharpoonup> dom_element) \<Rightarrow> string \<Rightarrow> int \<Rightarrow> timeable_options \<Rightarrow> host \<Rightarrow> timeable_instance \<times> host" where
  "Timeable_new document elementId dur opts h =
     (case document elementId of
        None \<Rightarrow> (NoElement, console_error (not_found_msg elementId) h)
      | Some el \<Rightarrow>
          (Widget (render
             \<lparr>element = el,
              duration = dur,
              remainingTime = dur,
              interval = None,
              options = opts,
              format = (case opt_format opts of
                          None \<Rightarrow> ''mm:ss''
                        | Some f \<Rightarrow> if f = [] then ''mm:ss'' else f),
              onComplete = (if is_function (opt_onComplete opts) then opt_onComplete opts else JNull),
              onTick = (if is_function (opt_onTick opts) then opt_onTick opts else JNull)\<rparr>),
           h))"

text \<open>
  The methods run on the widget and the host together. \<open>tick\<close> is the closure that
  \<^verbatim>\<open>start()\<close> hands to \<^verbatim>\<open>setInterval\<close>. A method that calls a callback can throw.
\<close>

type_synonym world = "timeable \<times> host"

definition pause :: "world \<Rightarrow> world" where
  "pause s =
     (case s of (t, h) \<Rightarrow>
        (case interval t of
           Some k \<Rightarrow> (t\<lparr>interval := None\<rparr>, clearInterval k h)
         | None \<Rightarrow> (t, console_warn ''Timeable Warning: Timer is not running.'' h)))"

definition complete :: "world \<Rightarrow> js_error + world" where
  "complete s =
     (case pause s of (t, h) \<Rightarrow>
        (let t = t\<lparr>element := (element t)\<lparr>innerText := formatTime (format t) 0\<rparr>\<rparr>;
             t = t\<lparr>element := (element t)
                    \<lparr>classList := classList_add ''complete'' (classList (element t))\<rparr>\<rparr>
         in if truthy (onComplete t)
            then (case call_value (onComplete t) [] h of
                    Inl e \<Rightarrow> Inl e
                  | Inr h' \<Rightarrow> Inr (t, h'))
            else Inr (t, h)))"

definition tick :: "world \<Rightarrow> js_error + world" where
  "tick s =
     (case s of (t, h) \<Rightarrow>
        if remainingTime t > 0
        then (let t = t\<lparr>remainingTime := remainingTime t - 1\<rparr>;
                  t = updateDisplay t
              in if truthy (onTick t)
                 then (case call_value (onTick t) [JNumber (remainingTime t)] h of
                         Inl e \<Rightarrow> Inl e
                       | Inr h' \<Rightarrow> Inr (t, h'))
                 else Inr (t, h))
        else complete (t, h))"

definition start :: "world \<Rightarrow> world" where
  "start s =
     (case s of (t, h) \<Rightarrow>
        (case interval t of
           Some k \<Rightarrow> (t, console_warn ''Timeable Warning: Timer is already running.'' h)
         | None \<Rightarrow> (case setInterval h of (k, h') \<Rightarrow> (t\<lparr>interval := Some k\<rparr>, h'))))"

definition reset :: "world \<Rightarrow> world" where
  "reset s =
     (case pause s of (t, h) \<Rightarrow>
        (let t = t\<lparr>remainingTime := duration t\<rparr>;
             t = updateDisplay t;
             t = t\<lparr>element := (element t)
                    \<lparr>classList := classList_remove ''complete'' (classList (element t))\<rparr>\<rparr>
         in (t, h)))"

text \<open>\<^verbatim>\<open>initializeTimer(elementId, duration, options)\<close>: \<open>None\<close> is \<^verbatim>\<open>null\<close>.\<close>

definition initializeTimer ::
  "(string \<rightharpoonup> dom_element) \<Rightarrow> string \<Rightarrow> int \<Rightarrow> timeable_options \<Rightarrow> host \<Rightarrow> timeable option \<times> host" where
  "initializeTimer document elementId dur opts h =
     (case Timeable_new document elementId dur opts h of
        (Widget t, h') \<Rightarrow> (case start (t, h') of (t', h'') \<Rightarrow> (Some t', h''))
      | (NoElement, h') \<Rightarrow> (None, h'))"

section \<open>Runs of the widget\<close>

text \<open>
  What can happen to a constructed widget: a caller invokes one of its methods, or the
  scheduler fires an interval timer. Only a live timer fires; firing runs the tick
  closure. An uncaught exception ends the run.
\<close>

datatype action = Start | Pause | Reset | Complete | Render | UpdateDisplay | Fire handle

fun step :: "action \<Rightarrow> world \<Rightarrow> js_error + world" where
  "step Start s = Inr (start s)"
| "step Pause s = Inr (pause s)"
| "step Reset s = Inr (reset s)"
| "step Complete s = complete s"
| "step Render s = Inr (render (fst s), snd s)"
| "step UpdateDisplay s = Inr (updateDisplay (fst s), snd s)"
| "step (Fire k) s = (if k \<in> set (timers (snd s)) then tick s else Inr s)"

fun run :: "action list \<Rightarrow> world \<Rightarrow> js_error + world" where
  "run [] s = Inr s"
| "run (a # as) s = (case step a s of Inl e \<Rightarrow> Inl e | Inr s' \<Rightarrow> run as s')"

text \<open>One second passes: every timer that is live fires once, in the order of scheduling.\<close>

definition elapse :: "world \<Rightarrow> js_error + world" where
  "elapse s = run (map Fire (timers (snd s))) s"

section \<open>Invariants of a run\<close>

text \<open>
  The handle the widget holds and the timers the scheduler keeps live agree: no timer
  without a handle, one timer with it.
\<close>

definition sync :: "world \<Rightarrow> bool" where
  "sync s = (timers (snd s) = (case interval (fst s) of None \<Rightarrow> [] | Some k \<Rightarrow> [k]))"

text \<open>A stored callback is a function or \<^verbatim>\<open>null\<close>.\<close>

definition callbacks_ok :: "timeable \<Rightarrow> bool" where
  "callbacks_ok t =
     ((is_function (onComplete t) \<or> onComplete t = JNull) \<and>
      (is_function (onTick t) \<or> onTick t = JNull))"

definition in_range :: "timeable \<Rightarrow> bool" where
  "in_range t = (0 \<le> remainingTime t \<and> remainingTime t \<le> duration t)"

text \<open>The value a string of decimal digits denotes, read from the left.\<close>

definition digit_value :: "char \<Rightarrow> nat" where
  "digit_value c = of_char c - 48"

definition digits_value :: "string \<Rightarrow> nat" where
  "digits_value cs = foldl (\<lambda>acc c. 10 * acc + digit_value c) 0 cs"

section \<open>Comparing runs\<close>

text \<open>
  Two devices of the specification, for saying that a run does not depend on something:
  \<open>with_options\<close> replaces the stored options object (\<^verbatim>\<open>this.options\<close>, which no
  method reads), \<open>no_console\<close> forgets the console's output. \<open>drop_non_functions\<close> are
  the options with every callback that is not a function left out.
\<close>

definition with_options :: "timeable_options \<Rightarrow> world \<Rightarrow> world" where
  "with_options opts s = ((fst s)\<lparr>options := opts\<rparr>, snd s)"

definition no_console :: "world \<Rightarrow> world" where
  "no_console s = (fst s, (snd s)\<lparr>console := []\<rparr>)"

definition drop_non_functions :: "timeable_options \<Rightarrow> timeable_options" where
  "drop_non_functions opts =
     opts\<lparr>opt_onComplete :=
            (if is_function (opt_onComplete opts) then opt_onComplete opts else JUndefined),
          opt_onTick :=
            (if is_function (opt_onTick opts) then opt_onTick opts else JUndefined)\<rparr>"

section \<open>A page to run the widget on\<close>

text \<open>
  The inputs of the scenario of the specification: a page with one empty element
  \<open>timer\<close>, a host with nothing scheduled and nothing logged, and options with the
  format \<open>mm:ss\<close> and a completion callback.
\<close>

abbreviation page :: "string \<rightharpoonup> dom_element" where
  "page \<equiv> [''timer'' \<mapsto> \<lparr>classList = [], innerText = []\<rparr>]"

abbreviation fresh_host :: host where
  "fresh_host \<equiv> \<lparr>console = [], timers = [], next_handle = 1, calls = []\<rparr>"

abbreviation scenario_options :: timeable_options where
  "scenario_options \<equiv>
     \<lparr>opt_format = Some ''mm:ss'', opt_onComplete = JFunction 0, opt_onTick = JUndefined\<rparr>"

text \<open>The widget that the constructor builds from them with the duration 3.\<close>

abbreviation scenario_widget :: timeable where
  "scenario_widget \<equiv>
     \<lparr>element = \<lparr>classList = [''timeable-timer''], innerText = ''00:03''\<rparr>,
      duration = 3, remainingTime = 3, interval = None, options = scenario_options,
      format = ''mm:ss'', onComplete = JFunction 0, onTick = JNull\<rparr>"


text \<open>The scenario after \<^verbatim>\<open>start()\<close> and three ticks: the display is at zero, the timer is live.\<close>

abbreviation scenario_expired :: world where
  "scenario_expired \<equiv>
     (scenario_widget
        \<lparr>element := \<lparr>classList = [''timeable-timer''], innerText = ''00:00''\<rparr>,
         remainingTime := 0, interval := Some (Handle 1)\<rparr>,
      fresh_host\<lparr>timers := [Handle 1], next_handle := 2\<rparr>)"

text \<open>And after the fourth tick.\<close>

abbreviation scenario_completed :: world where
  "scenario_completed \<equiv>
     (scenario_widget
        \<lparr>element := \<lparr>classList = [''timeable-timer'', ''complete''], innerText = ''00:00''\<rparr>,
         remainingTime := 0\<rparr>,
      fresh_host\<lparr>next_handle := 2, calls := [(0, [])]\<rparr>)"

text \<open>The scenario's widget built from options whose callbacks are not functions.\<close>

abbreviation careless_options :: timeable_options where
  "careless_options \<equiv>
     \<lparr>opt_format = Some ''mm:ss'', opt_onComplete = JString ''done'', opt_onTick = JNumber 5\<rparr>"

abbreviation careless_widget :: timeable where
  "careless_widget \<equiv> scenario_widget\<lparr>options := careless_options, onComplete := JNull\<rparr>"

section \<open>Formatting\<close>

lemma digit_value_digit_char: "d < 10 \<Longrightarrow> digit_value (digit_char d) = d"
proof -
  assume "d < 10"
  then have "d \<in> {0, 1, 2, 3, 4, 5, 6, 7, 8, 9}" by auto
  then show ?thesis by (auto simp: digit_value_def digit_char_def)
qed

lemma digits_value_snoc: "digits_value (cs @ [c]) = 10 * digits_value cs + digit_value c"
  by (simp add: digits_value_def)

lemma digits_value_decimal: "digits_value (decimal n) = n"
proof (induction n rule: decimal.induct)
  case (1 n)
  show ?case
  proof (cases "n < 10")
    case True
    then show ?thesis
      by (subst decimal.simps) (simp add: digits_value_def digit_value_digit_char)
  next
    case False
    with 1 have "digits_value (decimal (n div 10)) = n div 10" by simp
    with False show ?thesis
      by (subst decimal.simps) (simp add: digits_value_snoc digit_value_digit_char)
  qed
qed

lemma length_decimal_ge1: "1 \<le> length (decimal n)"
  by (subst decimal.simps) simp

lemma length_decimal_ge2: "10 \<le> n \<Longrightarrow> 2 \<le> length (decimal n)"
  using length_decimal_ge1 [of "n div 10"] by (subst decimal.simps) simp

lemma length_decimal_ge3: "100 \<le> n \<Longrightarrow> 3 \<le> length (decimal n)"
  using length_decimal_ge2 [of "n div 10"] by (subst decimal.simps) simp

lemma js_rem_nonneg: "0 \<le> a \<Longrightarrow> 0 < b \<Longrightarrow> js_rem a b = a mod b"
  by (cases "a = 0") (simp_all add: js_rem_def)

lemma padZero_one_digit: "0 \<le> n \<Longrightarrow> n < 10 \<Longrightarrow> padZero n = [CHR ''0'', ''0123456789'' ! nat n]"
  by (simp add: padZero_def numToString_def decimal.simps digit_char_def)

lemma padZero_more_digits: "10 \<le> n \<Longrightarrow> padZero n = decimal (nat n)"
  by (simp add: padZero_def numToString_def)

lemmas format_eval = formatTime_def padZero_def numToString_def decimal.simps digit_char_def js_rem_def

text \<open>
  C3. For a non-negative number of seconds \<open>s\<close> among the integers a number holds
  exactly (up to \<open>2^53\<close>), \<open>formatTime\<close> renders the hours
  \<open>floor(s/3600)\<close>, the minutes \<open>floor((s mod 3600)/60)\<close> and the seconds \<open>s mod 60\<close>,
  each through \<open>padZero\<close>. \<open>padZero\<close> puts one \<open>0\<close> before a value from 0 to 9 and
  leaves a value of 10 or more (up to \<open>2^53\<close>) as its full decimal numeral: the digits denote the value,
  there are at least two of them, and at least three from 100 on. In particular
  \<open>ss\<close> at 65 is \<open>05\<close>, \<open>mm:ss\<close> at 65 is \<open>01:05\<close>, \<open>hh:mm:ss\<close> at 3661 is
  \<open>01:01:01\<close> and \<open>mm:ss\<close> at 0 is \<open>00:00\<close>.
\<close>

theorem formatTime_components:
  assumes "0 \<le> s"
    and "s \<le> 2 ^ 53"
  shows "formatTime fmt s =
           (if str_includes fmt ''hh'' then padZero (s div 3600) @ '':'' else []) @
           (if str_includes fmt ''mm'' then padZero (s mod 3600 div 60) @ '':'' else []) @
           (if str_includes fmt ''ss'' then padZero (s mod 60) else [])
         \<and> (\<forall>n. 0 \<le> n \<and> n < 10 \<longrightarrow> padZero n = [CHR ''0'', ''0123456789'' ! nat n])
         \<and> (\<forall>n. 10 \<le> n \<and> n \<le> 2 ^ 53 \<longrightarrow>
               padZero n = decimal (nat n) \<and> digits_value (padZero n) = nat n
               \<and> 2 \<le> length (padZero n))
         \<and> (\<forall>n. 100 \<le> n \<and> n \<le> 2 ^ 53 \<longrightarrow> 3 \<le> length (padZero n))
         \<and> formatTime ''ss'' 65 = ''05''
         \<and> formatTime ''mm:ss'' 65 = ''01:05''
         \<and> formatTime ''hh:mm:ss'' 3661 = ''01:01:01''
         \<and> formatTime ''mm:ss'' 0 = ''00:00''"
proof -
  have parts: "formatTime fmt s =
           (if str_includes fmt ''hh'' then padZero (s div 3600) @ '':'' else []) @
           (if str_includes fmt ''mm'' then padZero (s mod 3600 div 60) @ '':'' else []) @
           (if str_includes fmt ''ss'' then padZero (s mod 60) else [])"
    using assms(1) by (simp add: formatTime_def js_rem_nonneg)
  have small: "\<forall>n. 0 \<le> n \<and> n < 10 \<longrightarrow> padZero n = [CHR ''0'', ''0123456789'' ! nat n]"
    by (simp add: padZero_one_digit)
  have large: "\<forall>n. 10 \<le> n \<and> n \<le> 2 ^ 53 \<longrightarrow>
      padZero n = decimal (nat n) \<and> digits_value (padZero n) = nat n \<and> 2 \<le> length (padZero n)"
  proof (intro allI impI)
    fix n :: int
    assume "10 \<le> n \<and> n \<le> 2 ^ 53"
    then have n: "10 \<le> n" by simp
    then have "10 \<le> nat n" by simp
    then have "2 \<le> length (decimal (nat n))" by (rule length_decimal_ge2)
    with n show "padZero n = decimal (nat n) \<and> digits_value (padZero n) = nat n
        \<and> 2 \<le> length (padZero n)"
      by (simp add: padZero_more_digits digits_value_decimal)
  qed
  have huge: "\<forall>n. 100 \<le> n \<and> n \<le> 2 ^ 53 \<longrightarrow> 3 \<le> length (padZero n)"
  proof (intro allI impI)
    fix n :: int
    assume "100 \<le> n \<and> n \<le> 2 ^ 53"
    then have n: "100 \<le> n" by simp
    then have "100 \<le> nat n" by simp
    then have "3 \<le> length (decimal (nat n))" by (rule length_decimal_ge3)
    with n show "3 \<le> length (padZero n)" by (simp add: padZero_more_digits)
  qed
  have e1: "formatTime ''ss'' 65 = ''05''" by (simp add: format_eval)
  have e2: "formatTime ''mm:ss'' 65 = ''01:05''" by (simp add: format_eval)
  have e3: "formatTime ''hh:mm:ss'' 3661 = ''01:01:01''" by (simp add: format_eval)
  have e4: "formatTime ''mm:ss'' 0 = ''00:00''" by (simp add: format_eval)
  from parts small large huge e1 e2 e3 e4 show ?thesis by blast
qed

theorem formatTime_components_witness:
  "(0::int) \<le> 360000
   \<and> (360000::int) \<le> 2 ^ 53
   \<and> formatTime ''hh:mm:ss'' 360000 = padZero 100 @ '':'' @ padZero 0 @ '':'' @ padZero 0
   \<and> padZero 7 = ''07''
   \<and> digits_value (padZero 100) = 100
   \<and> 3 \<le> length (padZero 100)"
  using formatTime_components [of 360000 "''hh:mm:ss''"]
  by (simp add: decimal.simps digit_char_def digits_value_def digit_value_def)

section \<open>The methods, field by field\<close>

lemmas widget_eval =
  Timeable_new_def render_def updateDisplay_def start_def pause_def reset_def complete_def
  tick_def setInterval_def clearInterval_def console_warn_def console_error_def call_value_def
  classList_add_def classList_remove_def elapse_def initializeTimer_def Let_def

lemma pause_fields [simp]:
  "remainingTime (fst (pause s)) = remainingTime (fst s)"
  "duration (fst (pause s)) = duration (fst s)"
  "format (fst (pause s)) = format (fst s)"
  "element (fst (pause s)) = element (fst s)"
  "onComplete (fst (pause s)) = onComplete (fst s)"
  "onTick (fst (pause s)) = onTick (fst s)"
  "options (fst (pause s)) = options (fst s)"
  "interval (fst (pause s)) = None"
  "calls (snd (pause s)) = calls (snd s)"
  by (auto simp: pause_def clearInterval_def console_warn_def split: prod.splits option.splits)

lemma pause_sync: "sync s \<Longrightarrow> timers (snd (pause s)) = []"
  by (auto simp: sync_def pause_def clearInterval_def console_warn_def split: prod.splits option.splits)

lemma start_fields [simp]:
  "remainingTime (fst (start s)) = remainingTime (fst s)"
  "duration (fst (start s)) = duration (fst s)"
  "format (fst (start s)) = format (fst s)"
  "element (fst (start s)) = element (fst s)"
  "onComplete (fst (start s)) = onComplete (fst s)"
  "onTick (fst (start s)) = onTick (fst s)"
  "options (fst (start s)) = options (fst s)"
  "calls (snd (start s)) = calls (snd s)"
  by (auto simp: start_def setInterval_def console_warn_def Let_def split: prod.splits option.splits)

lemma start_running: "interval (fst (start s)) \<noteq> None"
  by (auto simp: start_def setInterval_def console_warn_def Let_def split: prod.splits option.splits)

lemma sync_start: "sync s \<Longrightarrow> sync (start s)"
  by (auto simp: sync_def start_def setInterval_def console_warn_def Let_def split: prod.splits option.splits)

lemma sync_pause: "sync s \<Longrightarrow> sync (pause s)"
  by (simp add: sync_def pause_sync)

lemma reset_fields [simp]:
  "remainingTime (fst (reset s)) = duration (fst s)"
  "duration (fst (reset s)) = duration (fst s)"
  "format (fst (reset s)) = format (fst s)"
  "onComplete (fst (reset s)) = onComplete (fst s)"
  "onTick (fst (reset s)) = onTick (fst s)"
  "options (fst (reset s)) = options (fst s)"
  "interval (fst (reset s)) = None"
  "calls (snd (reset s)) = calls (snd s)"
  "timers (snd (reset s)) = timers (snd (pause s))"
  "console (snd (reset s)) = console (snd (pause s))"
  "innerText (element (fst (reset s))) = formatTime (format (fst s)) (duration (fst s))"
  "classList (element (fst (reset s))) = classList_remove ''complete'' (classList (element (fst s)))"
  by (simp_all add: reset_def updateDisplay_def Let_def split_beta)

lemma sync_reset: "sync s \<Longrightarrow> sync (reset s)"
  by (simp add: sync_def pause_sync)

lemma complete_ok:
  assumes "callbacks_ok (fst s)"
  shows "\<exists>s'. complete s = Inr s'"
  using assms
  by (cases "onComplete (fst s)")
     (auto simp: complete_def callbacks_ok_def call_value_def Let_def split_beta)

lemma complete_fields:
  assumes "complete s = Inr s'"
  shows "remainingTime (fst s') = remainingTime (fst s)"
    "duration (fst s') = duration (fst s)"
    "format (fst s') = format (fst s)"
    "onComplete (fst s') = onComplete (fst s)"
    "onTick (fst s') = onTick (fst s)"
    "options (fst s') = options (fst s)"
    "interval (fst s') = None"
    "timers (snd s') = timers (snd (pause s))"
    "console (snd s') = console (snd (pause s))"
    "innerText (element (fst s')) = formatTime (format (fst s)) 0"
    "classList (element (fst s')) = classList_add ''complete'' (classList (element (fst s)))"
  using assms
  by (auto simp: complete_def call_value_def Let_def split_beta split: if_splits js_value.splits
      simp: pause_def clearInterval_def console_warn_def split: option.splits)

lemma complete_calls:
  assumes "complete s = Inr s'"
  shows "calls (snd s') =
    calls (snd s) @ (case onComplete (fst s) of JFunction f \<Rightarrow> [(f, [])] | _ \<Rightarrow> [])"
  using assms
  by (auto simp: complete_def call_value_def Let_def split_beta split: if_splits js_value.splits)

lemma tick_positive:
  assumes "0 < remainingTime (fst s)" "callbacks_ok (fst s)"
  shows "\<exists>s'. tick s = Inr s'
     \<and> remainingTime (fst s') = remainingTime (fst s) - 1
     \<and> duration (fst s') = duration (fst s)
     \<and> format (fst s') = format (fst s)
     \<and> onComplete (fst s') = onComplete (fst s)
     \<and> onTick (fst s') = onTick (fst s)
     \<and> options (fst s') = options (fst s)
     \<and> interval (fst s') = interval (fst s)
     \<and> timers (snd s') = timers (snd s)
     \<and> console (snd s') = console (snd s)
     \<and> classList (element (fst s')) = classList (element (fst s))
     \<and> innerText (element (fst s')) = formatTime (format (fst s)) (remainingTime (fst s) - 1)
     \<and> calls (snd s') = calls (snd s) @
          (case onTick (fst s) of JFunction f \<Rightarrow> [(f, [JNumber (remainingTime (fst s) - 1)])]
           | _ \<Rightarrow> [])"
  using assms
  by (cases "onTick (fst s)")
     (auto simp: tick_def callbacks_ok_def call_value_def updateDisplay_def Let_def split_beta)

lemma tick_expired: "\<not> 0 < remainingTime (fst s) \<Longrightarrow> tick s = complete s"
  by (simp add: tick_def split_beta)

lemma step_ok:
  assumes "callbacks_ok (fst s)"
  shows "\<exists>s'. step a s = Inr s'"
proof (cases a)
  case Complete
  with assms complete_ok [of s] show ?thesis by auto
next
  case (Fire k)
  show ?thesis
  proof (cases "0 < remainingTime (fst s)")
    case True
    with assms tick_positive [of s] Fire show ?thesis by auto
  next
    case False
    with assms Fire complete_ok [of s] show ?thesis by (auto simp: tick_expired)
  qed
qed simp_all

lemma step_callbacks:
  assumes "step a s = Inr s'"
  shows "onComplete (fst s') = onComplete (fst s) \<and> onTick (fst s') = onTick (fst s)
    \<and> duration (fst s') = duration (fst s) \<and> format (fst s') = format (fst s)"
proof (cases a)
  case Complete
  with assms show ?thesis by (simp add: complete_fields)
next
  case (Fire k)
  show ?thesis
  proof (cases "k \<in> set (timers (snd s))")
    case live: True
    show ?thesis
    proof (cases "0 < remainingTime (fst s)")
      case True
      with assms Fire live show ?thesis
        by (auto simp: tick_def call_value_def updateDisplay_def Let_def split_beta
            split: if_splits js_value.splits)
    next
      case False
      with assms Fire live show ?thesis by (simp add: tick_expired complete_fields)
    qed
  next
    case False
    with assms Fire show ?thesis by simp
  qed
qed (use assms in \<open>auto simp: render_def updateDisplay_def Let_def\<close>)

lemma tick_sync:
  assumes "tick s = Inr s'" "sync s"
  shows "sync s'"
proof (cases "0 < remainingTime (fst s)")
  case True
  with assms show ?thesis
    by (auto simp: tick_def sync_def call_value_def updateDisplay_def Let_def split_beta
        split: if_splits js_value.splits)
next
  case False
  with assms have c: "complete s = Inr s'" by (simp add: tick_expired)
  from assms(2) show ?thesis
    by (simp add: sync_def complete_fields [OF c] pause_sync)
qed

lemma step_sync:
  assumes "step a s = Inr s'" "sync s"
  shows "sync s'"
proof (cases a)
  case Start with assms show ?thesis by (auto simp: sync_start)
next
  case Pause with assms show ?thesis by (auto simp: sync_pause)
next
  case Reset with assms show ?thesis by (auto simp: sync_reset)
next
  case Complete
  with assms have c: "complete s = Inr s'" by simp
  from assms(2) show ?thesis by (simp add: sync_def complete_fields [OF c] pause_sync)
next
  case Render with assms show ?thesis by (auto simp: sync_def render_def Let_def)
next
  case UpdateDisplay with assms show ?thesis by (auto simp: sync_def updateDisplay_def)
next
  case (Fire k)
  with assms show ?thesis by (auto simp: tick_sync split: if_splits)
qed

lemma step_range:
  assumes "step a s = Inr s'" "in_range (fst s)"
  shows "in_range (fst s')"
proof (cases a)
  case Complete
  with assms have c: "complete s = Inr s'" by simp
  from assms(2) show ?thesis by (simp add: in_range_def complete_fields [OF c])
next
  case (Fire k)
  show ?thesis
  proof (cases "k \<in> set (timers (snd s))")
    case live: True
    show ?thesis
    proof (cases "0 < remainingTime (fst s)")
      case True
      with assms Fire live show ?thesis
        by (auto simp: in_range_def tick_def call_value_def updateDisplay_def Let_def split_beta
            split: if_splits js_value.splits)
    next
      case False
      with assms Fire live have c: "complete s = Inr s'" by (simp add: tick_expired)
      from assms(2) show ?thesis by (simp add: in_range_def complete_fields [OF c])
    qed
  next
    case False
    with assms Fire show ?thesis by auto
  qed
qed (use assms in \<open>auto simp: in_range_def render_def updateDisplay_def Let_def\<close>)

lemma step_keeps_callbacks_ok:
  "step a s = Inr s' \<Longrightarrow> callbacks_ok (fst s) \<Longrightarrow> callbacks_ok (fst s')"
  using step_callbacks [of a s s'] by (simp add: callbacks_ok_def)

lemma run_ok: "callbacks_ok (fst s) \<Longrightarrow> \<exists>s'. run acts s = Inr s'"
proof (induction acts arbitrary: s)
  case Nil
  show ?case by simp
next
  case (Cons a acts)
  from step_ok [OF Cons.prems] obtain s1 where s1: "step a s = Inr s1" by blast
  with Cons.prems have "callbacks_ok (fst s1)" by (rule step_keeps_callbacks_ok [rotated])
  from Cons.IH [OF this] s1 show ?case by simp
qed

lemma run_fixed:
  "run acts s = Inr s' \<Longrightarrow>
     onComplete (fst s') = onComplete (fst s) \<and> onTick (fst s') = onTick (fst s)
     \<and> duration (fst s') = duration (fst s) \<and> format (fst s') = format (fst s)"
proof (induction acts arbitrary: s)
  case Nil
  then show ?case by simp
next
  case (Cons a acts)
  then obtain s1 where s1: "step a s = Inr s1" and r: "run acts s1 = Inr s'"
    by (auto split: sum.splits)
  from Cons.IH [OF r] step_callbacks [OF s1] show ?case by simp
qed

lemma run_sync: "run acts s = Inr s' \<Longrightarrow> sync s \<Longrightarrow> sync s'"
proof (induction acts arbitrary: s)
  case Nil
  then show ?case by simp
next
  case (Cons a acts)
  then obtain s1 where s1: "step a s = Inr s1" and r: "run acts s1 = Inr s'"
    by (auto split: sum.splits)
  from step_sync [OF s1 Cons.prems(2)] Cons.IH [OF r] show ?case by simp
qed

lemma run_range: "run acts s = Inr s' \<Longrightarrow> in_range (fst s) \<Longrightarrow> in_range (fst s')"
proof (induction acts arbitrary: s)
  case Nil
  then show ?case by simp
next
  case (Cons a acts)
  then obtain s1 where s1: "step a s = Inr s1" and r: "run acts s1 = Inr s'"
    by (auto split: sum.splits)
  from step_range [OF s1 Cons.prems(2)] Cons.IH [OF r] show ?case by simp
qed

lemma Timeable_new_Widget:
  assumes "Timeable_new document elementId dur opts h = (Widget t, h')"
  shows "h' = h" "duration t = dur" "remainingTime t = dur" "interval t = None"
    "options t = opts"
    "format t = (case opt_format opts of None \<Rightarrow> ''mm:ss'' | Some f \<Rightarrow> if f = [] then ''mm:ss'' else f)"
    "onComplete t = (if is_function (opt_onComplete opts) then opt_onComplete opts else JNull)"
    "onTick t = (if is_function (opt_onTick opts) then opt_onTick opts else JNull)"
    "innerText (element t) = formatTime (format t) dur"
    "\<exists>el. document elementId = Some el
       \<and> classList (element t) = classList_add ''timeable-timer'' (classList el)"
  using assms
  by (auto simp: Timeable_new_def render_def Let_def split: option.splits)

lemma Timeable_new_callbacks_ok:
  "Timeable_new document elementId dur opts h = (Widget t, h') \<Longrightarrow> callbacks_ok t"
  by (simp add: callbacks_ok_def Timeable_new_Widget)

lemma Timeable_new_sync:
  "Timeable_new document elementId dur opts h = (Widget t, h') \<Longrightarrow> timers h = [] \<Longrightarrow> sync (t, h')"
  using Timeable_new_Widget(1,4) [of document elementId dur opts h t h'] by (simp add: sync_def)

lemma Timeable_new_range:
  "Timeable_new document elementId dur opts h = (Widget t, h') \<Longrightarrow> 0 \<le> dur \<Longrightarrow> in_range t"
  by (simp add: in_range_def Timeable_new_Widget)

section \<open>Ticks\<close>

lemma run_Fire_idle: "timers (snd s) = [] \<Longrightarrow> run (map Fire ks) s = Inr s"
  by (induction ks) simp_all

lemma tick_remaining:
  assumes "tick s = Inr s'"
  shows "remainingTime (fst s') =
    (if 0 < remainingTime (fst s) then remainingTime (fst s) - 1 else remainingTime (fst s))"
proof (cases "0 < remainingTime (fst s)")
  case True
  with assms show ?thesis
    by (auto simp: tick_def call_value_def updateDisplay_def Let_def split_beta
        split: if_splits js_value.splits)
next
  case False
  with assms have "complete s = Inr s'" by (simp add: tick_expired)
  from complete_fields(1) [OF this] False show ?thesis by simp
qed

lemma tick_ok: "callbacks_ok (fst s) \<Longrightarrow> \<exists>s'. tick s = Inr s'"
  using tick_positive [of s] complete_ok [of s] tick_expired [of s]
  by (cases "0 < remainingTime (fst s)") auto

lemma elapse_running:
  "timers (snd s) = [k] \<Longrightarrow> elapse s = tick s"
  by (cases "tick s") (simp_all add: elapse_def)

lemma start_twice:
  "start (start s) =
     (fst (start s),
      (snd (start s))\<lparr>console := console (snd (start s)) @
         [ConsoleWarn ''Timeable Warning: Timer is already running.'']\<rparr>)"
  by (cases s)
     (auto simp: start_def setInterval_def console_warn_def Let_def split: option.splits)

lemma sync_running: "sync s \<Longrightarrow> interval (fst s) = Some k \<Longrightarrow> timers (snd s) = [k]"
  by (simp add: sync_def)

section \<open>What a run does not depend on\<close>

lemma complete_options:
  "complete (with_options opts s) = map_sum id (with_options opts) (complete s)"
  by (cases s)
     (auto simp: with_options_def complete_def pause_def clearInterval_def console_warn_def
       call_value_def Let_def split: option.splits js_value.splits)

lemma tick_options:
  "tick (with_options opts s) = map_sum id (with_options opts) (tick s)"
proof (cases "0 < remainingTime (fst s)")
  case True
  then show ?thesis
    by (cases s)
       (auto simp: with_options_def tick_def updateDisplay_def call_value_def Let_def
         split: js_value.splits)
next
  case False
  then have "\<not> 0 < remainingTime (fst (with_options opts s))" by (simp add: with_options_def)
  with False show ?thesis by (simp add: tick_expired complete_options)
qed

lemma step_options:
  "step a (with_options opts s) = map_sum id (with_options opts) (step a s)"
proof (cases a)
  case Complete
  then show ?thesis by (simp add: complete_options)
next
  case (Fire k)
  then show ?thesis by (simp add: tick_options) (simp add: with_options_def)
qed (cases s; auto simp: with_options_def widget_eval split: option.splits)+

lemma run_options:
  "run acts (with_options opts s) = map_sum id (with_options opts) (run acts s)"
proof (induction acts arbitrary: s)
  case Nil
  show ?case by simp
next
  case (Cons a acts)
  show ?case
    by (cases "step a s") (simp_all add: step_options Cons.IH)
qed

lemma complete_no_console:
  "map_sum id no_console (complete (no_console s)) = map_sum id no_console (complete s)"
  by (cases s)
     (auto simp: no_console_def complete_def pause_def clearInterval_def console_warn_def
       call_value_def Let_def split: option.splits js_value.splits)

lemma tick_no_console:
  "map_sum id no_console (tick (no_console s)) = map_sum id no_console (tick s)"
proof (cases "0 < remainingTime (fst s)")
  case True
  then show ?thesis
    by (cases s)
       (auto simp: no_console_def tick_def updateDisplay_def call_value_def Let_def
         split: js_value.splits)
next
  case False
  then have "\<not> 0 < remainingTime (fst (no_console s))" by (simp add: no_console_def)
  with False show ?thesis by (simp add: tick_expired complete_no_console)
qed

lemma step_no_console:
  "map_sum id no_console (step a (no_console s)) = map_sum id no_console (step a s)"
proof (cases a)
  case Complete
  then show ?thesis by (simp add: complete_no_console)
next
  case (Fire k)
  then show ?thesis by (simp add: tick_no_console) (simp add: no_console_def)
qed (cases s; auto simp: no_console_def widget_eval split: option.splits)+

lemma step_no_console_cong:
  assumes "no_console s = no_console s'"
  shows "map_sum id no_console (step a s) = map_sum id no_console (step a s')"
  using step_no_console [of a s] step_no_console [of a s'] assms by simp

lemma run_no_console_cong:
  "no_console s = no_console s' \<Longrightarrow>
     map_sum id no_console (run acts s) = map_sum id no_console (run acts s')"
proof (induction acts arbitrary: s s')
  case Nil
  then show ?case by simp
next
  case (Cons a acts)
  note st = step_no_console_cong [OF Cons.prems, of a]
  show ?case
  proof (cases "step a s")
    case (Inl e)
    with st have "step a s' = Inl e" by (cases "step a s'") simp_all
    with Inl show ?thesis by simp
  next
    case (Inr r)
    with st obtain r' where r': "step a s' = Inr r'" and eq: "no_console r = no_console r'"
      by (cases "step a s'") simp_all
    from Cons.IH [OF eq] Inr r' show ?thesis by simp
  qed
qed

lemma start_twice_no_console: "no_console (start (start s)) = no_console (start s)"
  by (simp add: start_twice no_console_def)

section \<open>The scenario, evaluated\<close>

lemma scenario_new:
  "Timeable_new page ''timer'' 3 scenario_options fresh_host = (Widget scenario_widget, fresh_host)"
  by (simp add: widget_eval format_eval)

lemma scenario_run:
  "run [Start, Fire (Handle 1), Fire (Handle 1), Fire (Handle 1)] (scenario_widget, fresh_host)
     = Inr scenario_expired"
  by (simp add: widget_eval format_eval)

lemma scenario_run_completed:
  "run [Start, Fire (Handle 1), Fire (Handle 1), Fire (Handle 1), Fire (Handle 1)]
       (scenario_widget, fresh_host)
     = Inr scenario_completed"
  by (simp add: widget_eval format_eval)

lemma careless_new:
  "Timeable_new page ''timer'' 3 careless_options fresh_host = (Widget careless_widget, fresh_host)"
  by (simp add: widget_eval format_eval)

section \<open>Completion\<close>

text \<open>
  C1. Take a widget built by the constructor and brought anywhere by method calls and
  timer firings. When its live timer fires with nothing remaining, \<open>complete\<close> runs:
  the handle is cleared and no timer stays live, the class \<open>complete\<close> is on the
  element, the display is the formatted zero, and \<open>onComplete\<close> is called once if it
  is a function (and nothing is called otherwise). From then on no firing and no passing
  second changes anything, so the callback is not called again until \<open>start\<close>.
\<close>

theorem completion_once:
  assumes "Timeable_new document elementId dur opts h0 = (Widget t0, h1)"
    and "timers h0 = []"
    and "run acts (t0, h1) = Inr (t, h)"
    and "k \<in> set (timers h)"
    and "remainingTime t \<le> 0"
  shows "\<exists>t' h'. step (Fire k) (t, h) = Inr (t', h')
      \<and> interval t' = None \<and> timers h' = []
      \<and> classList (element t') = classList_add ''complete'' (classList (element t))
      \<and> ''complete'' \<in> set (classList (element t'))
      \<and> innerText (element t') = formatTime (format t) 0
      \<and> calls h' = calls h @ (case opt_onComplete opts of JFunction f \<Rightarrow> [(f, [])] | _ \<Rightarrow> [])
      \<and> (\<forall>ks. run (map Fire ks) (t', h') = Inr (t', h'))
      \<and> elapse (t', h') = Inr (t', h')"
proof -
  from assms(1) have ok0: "callbacks_ok (fst (t0, h1))"
    by (simp add: Timeable_new_callbacks_ok)
  from assms(1,2) have "sync (t0, h1)" by (rule Timeable_new_sync)
  from run_sync [OF assms(3) this] have sy: "sync (t, h)" .
  from run_fixed [OF assms(3)] assms(1)
  have oc: "onComplete t = (if is_function (opt_onComplete opts) then opt_onComplete opts else JNull)"
    by (simp add: Timeable_new_Widget)
  from run_fixed [OF assms(3)] ok0 have ok: "callbacks_ok (fst (t, h))"
    by (simp add: callbacks_ok_def)
  from complete_ok [OF ok] obtain t' h' where c: "complete (t, h) = Inr (t', h')" by fastforce
  from assms(4,5) c have st: "step (Fire k) (t, h) = Inr (t', h')"
    by (simp add: tick_expired)
  from complete_fields [OF c] pause_sync [OF sy]
  have f: "interval t' = None" "timers h' = []"
    "classList (element t') = classList_add ''complete'' (classList (element t))"
    "innerText (element t') = formatTime (format t) 0"
    by simp_all
  from f(3) have m: "''complete'' \<in> set (classList (element t'))"
    by (simp add: classList_add_def)
  from complete_calls [OF c] oc
  have cl: "calls h' = calls h @ (case opt_onComplete opts of JFunction f \<Rightarrow> [(f, [])] | _ \<Rightarrow> [])"
    by (cases "opt_onComplete opts") simp_all
  from f(2) have idle: "\<forall>ks. run (map Fire ks) (t', h') = Inr (t', h')"
    by (simp add: run_Fire_idle)
  from f(2) have el: "elapse (t', h') = Inr (t', h')" by (simp add: elapse_def)
  from st f m cl idle el show ?thesis by blast
qed

theorem completion_once_witness:
  "Timeable_new page ''timer'' 3 scenario_options fresh_host = (Widget scenario_widget, fresh_host)
   \<and> timers fresh_host = []
   \<and> run [Start, Fire (Handle 1), Fire (Handle 1), Fire (Handle 1)] (scenario_widget, fresh_host)
       = Inr scenario_expired
   \<and> Handle 1 \<in> set (timers (snd scenario_expired))
   \<and> remainingTime (fst scenario_expired) \<le> 0
   \<and> (\<exists>t' h'. step (Fire (Handle 1)) scenario_expired = Inr (t', h')
         \<and> interval t' = None \<and> timers h' = []
         \<and> ''complete'' \<in> set (classList (element t'))
         \<and> innerText (element t') = ''00:00''
         \<and> calls h' = [(0, [])]
         \<and> elapse (t', h') = Inr (t', h'))"
proof -
  have tm: "timers fresh_host = []" by simp
  have k: "Handle 1 \<in> set (timers (fresh_host\<lparr>timers := [Handle 1], next_handle := 2\<rparr>))" by simp
  have z: "remainingTime (scenario_widget
        \<lparr>element := \<lparr>classList = [''timeable-timer''], innerText = ''00:00''\<rparr>,
         remainingTime := 0, interval := Some (Handle 1)\<rparr>) \<le> 0" by simp
  from completion_once [OF scenario_new tm scenario_run k z] scenario_new scenario_run
  show ?thesis by (auto simp: format_eval)
qed

text \<open>
  C2, as stated, fails. In the scenario (duration 3, format \<open>mm:ss\<close>, started) the
  display is \<open>00:03\<close> at first and \<open>00:00\<close> after three ticks, but by then the
  element has no class \<open>complete\<close> and no callback has been called: the third tick
  takes the branch that decrements.
\<close>

theorem scenario_not_complete_after_three_ticks:
  "Timeable_new page ''timer'' 3 scenario_options fresh_host = (Widget scenario_widget, fresh_host)
   \<and> innerText (element scenario_widget) = ''00:03''
   \<and> run [Start, Fire (Handle 1), Fire (Handle 1), Fire (Handle 1)] (scenario_widget, fresh_host)
       = Inr scenario_expired
   \<and> innerText (element (fst scenario_expired)) = ''00:00''
   \<and> ''complete'' \<notin> set (classList (element (fst scenario_expired)))
   \<and> calls (snd scenario_expired) = []"
  by (simp add: widget_eval format_eval)

text \<open>
  C2, amended. For a widget constructed with duration 3 and format \<open>mm:ss\<close> on any
  element and then started, the initial display is \<open>00:03\<close>; after exactly three
  ticks the display is \<open>00:00\<close>, the timer is still live, the class list is as the
  constructor left it and only \<open>onTick\<close> has been called; the fourth tick, the first
  one to find nothing remaining, sets the class \<open>complete\<close>, clears the timer and
  calls \<open>onComplete\<close> exactly once.
\<close>

theorem scenario_completion_on_fourth_tick:
  assumes "document elementId = Some el"
    and "timers h = []"
    and "opt_format opts = Some ''mm:ss''"
    and "opt_onComplete opts = JFunction f"
  shows "\<exists>t0 t3 h3 t4 h4.
      Timeable_new document elementId 3 opts h = (Widget t0, h)
      \<and> innerText (element t0) = ''00:03''
      \<and> run [Start, Fire (Handle (next_handle h)), Fire (Handle (next_handle h)),
              Fire (Handle (next_handle h))] (t0, h) = Inr (t3, h3)
      \<and> innerText (element t3) = ''00:00''
      \<and> remainingTime t3 = 0
      \<and> interval t3 = Some (Handle (next_handle h))
      \<and> timers h3 = [Handle (next_handle h)]
      \<and> classList (element t3) = classList_add ''timeable-timer'' (classList el)
      \<and> calls h3 = calls h @
            (case opt_onTick opts of
               JFunction g \<Rightarrow> [(g, [JNumber 2]), (g, [JNumber 1]), (g, [JNumber 0])]
             | _ \<Rightarrow> [])
      \<and> step (Fire (Handle (next_handle h))) (t3, h3) = Inr (t4, h4)
      \<and> innerText (element t4) = ''00:00''
      \<and> ''complete'' \<in> set (classList (element t4))
      \<and> interval t4 = None
      \<and> timers h4 = []
      \<and> calls h4 = calls h3 @ [(f, [])]"
  using assms
  by (cases "opt_onTick opts") (simp_all add: widget_eval format_eval)

theorem scenario_completion_on_fourth_tick_witness:
  "page ''timer'' = Some \<lparr>classList = [], innerText = []\<rparr>
   \<and> timers fresh_host = []
   \<and> opt_format scenario_options = Some ''mm:ss''
   \<and> opt_onComplete scenario_options = JFunction 0
   \<and> run [Start, Fire (Handle 1), Fire (Handle 1), Fire (Handle 1)] (scenario_widget, fresh_host)
       = Inr scenario_expired
   \<and> step (Fire (Handle 1)) scenario_expired = Inr scenario_completed"
  using scenario_completion_on_fourth_tick
    [of page "''timer''" "\<lparr>classList = [], innerText = []\<rparr>" fresh_host scenario_options 0]
  by (simp add: widget_eval format_eval)

section \<open>The separators of the format\<close>

text \<open>
  C4 asks for one colon between adjacent components and none at the end. \<open>formatTime\<close>
  writes the colon together with the hours and with the minutes, whatever follows: a
  format without \<open>ss\<close> ends in a colon.
\<close>

lemma formatTime_without_seconds:
  "\<not> str_includes fmt ''ss'' \<Longrightarrow> str_includes fmt ''hh'' \<or> str_includes fmt ''mm'' \<Longrightarrow>
     last (formatTime fmt s) = CHR '':''"
  by (auto simp: formatTime_def)

lemma formatTime_no_token:
  "\<not> str_includes fmt ''hh'' \<Longrightarrow> \<not> str_includes fmt ''mm'' \<Longrightarrow> \<not> str_includes fmt ''ss'' \<Longrightarrow>
     formatTime fmt s = []"
  by (simp add: formatTime_def)

text \<open>
  C4, at the failing inputs: the format \<open>hh:mm\<close> at 3661 seconds gives \<open>01:01:\<close>,
  and the formats \<open>hh\<close> and \<open>mm\<close> give \<open>01:\<close>.
\<close>

theorem formatTime_trailing_colon:
  "formatTime ''hh:mm'' 3661 = ''01:01:''
   \<and> formatTime ''hh'' 3661 = ''01:''
   \<and> formatTime ''mm'' 65 = ''01:''"
  by (simp add: format_eval)

section \<open>The range of the remaining time\<close>

text \<open>
  C5. A widget constructed with a positive duration (an integer that a number holds
  exactly, up to \<open>2^53\<close>) never fails and keeps
  \<open>0 \<le> remainingTime \<le> duration\<close> in every state that method calls and timer firings
  reach; the duration stays the constructed one. In such a state a tick takes one
  second off exactly when something remains, and \<open>reset\<close> puts the duration back.
\<close>

theorem remaining_in_range:
  assumes "Timeable_new document elementId dur opts h0 = (Widget t0, h1)"
    and "0 < dur"
    and "dur \<le> 2 ^ 53"
  shows "\<exists>t h. run acts (t0, h1) = Inr (t, h)
      \<and> 0 \<le> remainingTime t \<and> remainingTime t \<le> duration t \<and> duration t = dur
      \<and> (\<exists>t' h'. tick (t, h) = Inr (t', h')
           \<and> remainingTime t' = (if 0 < remainingTime t then remainingTime t - 1 else remainingTime t))
      \<and> remainingTime (fst (reset (t, h))) = dur"
proof -
  from assms(1) have ok: "callbacks_ok (fst (t0, h1))"
    by (simp add: Timeable_new_callbacks_ok)
  from assms(1,2) have rng: "in_range (fst (t0, h1))"
    by (simp add: Timeable_new_range)
  from run_ok [OF ok] obtain t h where r: "run acts (t0, h1) = Inr (t, h)" by fastforce
  from run_range [OF r rng] have 1: "0 \<le> remainingTime t \<and> remainingTime t \<le> duration t"
    by (simp add: in_range_def)
  from run_fixed [OF r] assms(1) have 2: "duration t = dur"
    by (simp add: Timeable_new_Widget)
  from run_fixed [OF r] ok have "callbacks_ok (fst (t, h))" by (simp add: callbacks_ok_def)
  from tick_ok [OF this] obtain t' h' where t': "tick (t, h) = Inr (t', h')" by fastforce
  from tick_remaining [OF t'] have 3: "remainingTime t' =
      (if 0 < remainingTime t then remainingTime t - 1 else remainingTime t)" by simp
  have 4: "remainingTime (fst (reset (t, h))) = dur" using 2 by simp
  from r 1 2 t' 3 4 show ?thesis by blast
qed

theorem remaining_in_range_witness:
  "Timeable_new page ''timer'' 3 scenario_options fresh_host = (Widget scenario_widget, fresh_host)
   \<and> (0::int) < 3
   \<and> (3::int) \<le> 2 ^ 53
   \<and> (\<exists>t h. run [Start, Fire (Handle 1), Pause, Complete, Start, Fire (Handle 2), Reset]
                (scenario_widget, fresh_host) = Inr (t, h)
         \<and> 0 \<le> remainingTime t \<and> remainingTime t \<le> duration t \<and> duration t = 3)"
proof -
  have new: "Timeable_new page ''timer'' 3 scenario_options fresh_host
      = (Widget scenario_widget, fresh_host)"
    by (simp add: widget_eval format_eval)
  have pos: "(0::int) < 3" by simp
  have le: "(3::int) \<le> 2 ^ 53" by simp
  from remaining_in_range [OF new pos le,
      of "[Start, Fire (Handle 1), Pause, Complete, Start, Fire (Handle 2), Reset]"] new
  show ?thesis by auto
qed

section \<open>Start, pause and reset\<close>

text \<open>
  C6. In every state reached from construction with a duration up to \<open>2^53\<close> (the
  integers a number holds exactly): \<open>start\<close> on a running widget only
  writes the warning to the console; so does the second of two \<open>start\<close> calls in a
  row, after which there is one handle and one live timer; one second later the
  remaining time is one less (if something remained), the same as after one \<open>start\<close>;
  and whatever happens next, the two runs differ in the console only.
\<close>

theorem start_while_running:
  assumes "Timeable_new document elementId dur opts h0 = (Widget t0, h1)"
    and "timers h0 = []"
    and "run acts (t0, h1) = Inr (t, h)"
    and "dur \<le> 2 ^ 53"
  shows "(\<forall>k. interval t = Some k \<longrightarrow>
            start (t, h) =
              (t, h\<lparr>console := console h @
                     [ConsoleWarn ''Timeable Warning: Timer is already running.'']\<rparr>))
      \<and> start (start (t, h)) =
            (fst (start (t, h)),
             (snd (start (t, h)))\<lparr>console := console (snd (start (t, h))) @
                [ConsoleWarn ''Timeable Warning: Timer is already running.'']\<rparr>)
      \<and> (\<exists>k. interval (fst (start (start (t, h)))) = Some k
             \<and> timers (snd (start (start (t, h)))) = [k])
      \<and> (\<exists>s1 s2. elapse (start (t, h)) = Inr s1
             \<and> elapse (start (start (t, h))) = Inr s2
             \<and> remainingTime (fst s1) =
                  (if 0 < remainingTime t then remainingTime t - 1 else remainingTime t)
             \<and> remainingTime (fst s2) = remainingTime (fst s1))
      \<and> (\<forall>more. map_sum id no_console (run more (start (start (t, h)))) =
                   map_sum id no_console (run more (start (t, h))))"
proof -
  from assms(1) have ok0: "callbacks_ok (fst (t0, h1))"
    by (simp add: Timeable_new_callbacks_ok)
  from assms(1,2) have "sync (t0, h1)" by (rule Timeable_new_sync)
  from run_sync [OF assms(3) this] have sy: "sync (t, h)" .
  from run_fixed [OF assms(3)] ok0 have ok: "callbacks_ok t"
    by (simp add: callbacks_ok_def)
  have 1: "\<forall>k. interval t = Some k \<longrightarrow>
      start (t, h) =
        (t, h\<lparr>console := console h @
               [ConsoleWarn ''Timeable Warning: Timer is already running.'']\<rparr>)"
    by (simp add: start_def console_warn_def)
  note 2 = start_twice [of "(t, h)"]
  let ?s1 = "start (t, h)" and ?s2 = "start (start (t, h))"
  have sy1: "sync ?s1" and sy2: "sync ?s2" using sy by (simp_all add: sync_start)
  obtain k1 where k1: "interval (fst ?s1) = Some k1" using start_running [of "(t, h)"] by auto
  obtain k2 where k2: "interval (fst ?s2) = Some k2" using start_running [of ?s1] by auto
  note tm1 = sync_running [OF sy1 k1] and tm2 = sync_running [OF sy2 k2]
  have ok1: "callbacks_ok (fst ?s1)" and ok2: "callbacks_ok (fst ?s2)"
    using ok by (simp_all add: callbacks_ok_def)
  from tick_ok [OF ok1] obtain r1 where r1: "tick ?s1 = Inr r1" by blast
  from tick_ok [OF ok2] obtain r2 where r2: "tick ?s2 = Inr r2" by blast
  from tick_remaining [OF r1] have v1: "remainingTime (fst r1) =
      (if 0 < remainingTime t then remainingTime t - 1 else remainingTime t)" by simp
  from tick_remaining [OF r2] have v2: "remainingTime (fst r2) =
      (if 0 < remainingTime t then remainingTime t - 1 else remainingTime t)" by simp
  have 4: "\<exists>s1 s2. elapse ?s1 = Inr s1 \<and> elapse ?s2 = Inr s2
      \<and> remainingTime (fst s1) =
          (if 0 < remainingTime t then remainingTime t - 1 else remainingTime t)
      \<and> remainingTime (fst s2) = remainingTime (fst s1)"
    using r1 r2 v1 v2 by (simp add: elapse_running [OF tm1] elapse_running [OF tm2])
  have 5: "\<forall>more. map_sum id no_console (run more ?s2) = map_sum id no_console (run more ?s1)"
    by (simp add: run_no_console_cong [OF start_twice_no_console])
  from 1 2 k2 tm2 4 5 show ?thesis by blast
qed

theorem start_while_running_witness:
  "Timeable_new page ''timer'' 3 scenario_options fresh_host = (Widget scenario_widget, fresh_host)
   \<and> timers fresh_host = []
   \<and> (3::int) \<le> 2 ^ 53
   \<and> run [Start, Fire (Handle 1), Fire (Handle 1), Fire (Handle 1)] (scenario_widget, fresh_host)
       = Inr scenario_expired
   \<and> interval (fst scenario_expired) = Some (Handle 1)
   \<and> start scenario_expired =
       (fst scenario_expired,
        (snd scenario_expired)\<lparr>console :=
           [ConsoleWarn ''Timeable Warning: Timer is already running.'']\<rparr>)"
proof -
  have tm: "timers fresh_host = []" by simp
  have le: "(3::int) \<le> 2 ^ 53" by simp
  from start_while_running [OF scenario_new tm scenario_run le] scenario_new scenario_run
  show ?thesis by simp
qed

text \<open>
  C7. In every state reached from construction with a duration up to \<open>2^53\<close> (the
  integers a number holds exactly): \<open>pause\<close> on a running widget clears
  the handle and the timer, so that a passing second changes nothing; on a widget that is
  not running it only writes the warning. Either way the remaining time stays, also
  through a following \<open>start\<close>, and the next tick counts down from it.
\<close>

theorem pause_keeps_remaining:
  assumes "Timeable_new document elementId dur opts h0 = (Widget t0, h1)"
    and "timers h0 = []"
    and "run acts (t0, h1) = Inr (t, h)"
    and "dur \<le> 2 ^ 53"
  shows "(\<forall>k. interval t = Some k \<longrightarrow>
            pause (t, h) = (t\<lparr>interval := None\<rparr>, h\<lparr>timers := []\<rparr>))
      \<and> (interval t = None \<longrightarrow>
            pause (t, h) =
              (t, h\<lparr>console := console h @
                     [ConsoleWarn ''Timeable Warning: Timer is not running.'']\<rparr>))
      \<and> interval (fst (pause (t, h))) = None
      \<and> timers (snd (pause (t, h))) = []
      \<and> elapse (pause (t, h)) = Inr (pause (t, h))
      \<and> remainingTime (fst (pause (t, h))) = remainingTime t
      \<and> remainingTime (fst (start (pause (t, h)))) = remainingTime t
      \<and> (\<exists>s1. elapse (start (pause (t, h))) = Inr s1
             \<and> remainingTime (fst s1) =
                  (if 0 < remainingTime t then remainingTime t - 1 else remainingTime t))"
proof -
  from assms(1) have ok0: "callbacks_ok (fst (t0, h1))"
    by (simp add: Timeable_new_callbacks_ok)
  from assms(1,2) have "sync (t0, h1)" by (rule Timeable_new_sync)
  from run_sync [OF assms(3) this] have sy: "sync (t, h)" .
  from run_fixed [OF assms(3)] ok0 have ok: "callbacks_ok t"
    by (simp add: callbacks_ok_def)
  have 1: "\<forall>k. interval t = Some k \<longrightarrow> pause (t, h) = (t\<lparr>interval := None\<rparr>, h\<lparr>timers := []\<rparr>)"
    using sy by (simp add: pause_def clearInterval_def sync_def)
  have 2: "interval t = None \<longrightarrow>
      pause (t, h) =
        (t, h\<lparr>console := console h @ [ConsoleWarn ''Timeable Warning: Timer is not running.'']\<rparr>)"
    by (simp add: pause_def console_warn_def)
  have 3: "timers (snd (pause (t, h))) = []" using sy by (rule pause_sync)
  then have 4: "elapse (pause (t, h)) = Inr (pause (t, h))" by (simp add: elapse_def)
  let ?s = "start (pause (t, h))"
  have sy1: "sync ?s" using sy by (simp add: sync_start sync_pause)
  obtain k where k: "interval (fst ?s) = Some k" using start_running [of "pause (t, h)"] by auto
  note tm = sync_running [OF sy1 k]
  have "callbacks_ok (fst ?s)" using ok by (simp add: callbacks_ok_def)
  from tick_ok [OF this] obtain r where r: "tick ?s = Inr r" by blast
  from tick_remaining [OF r] have "remainingTime (fst r) =
      (if 0 < remainingTime t then remainingTime t - 1 else remainingTime t)" by simp
  with r have 5: "\<exists>s1. elapse ?s = Inr s1
      \<and> remainingTime (fst s1) =
          (if 0 < remainingTime t then remainingTime t - 1 else remainingTime t)"
    by (simp add: elapse_running [OF tm])
  from 1 2 3 4 5 show ?thesis by simp
qed

theorem pause_keeps_remaining_witness:
  "Timeable_new page ''timer'' 3 scenario_options fresh_host = (Widget scenario_widget, fresh_host)
   \<and> timers fresh_host = []
   \<and> (3::int) \<le> 2 ^ 53
   \<and> run [Start, Fire (Handle 1), Fire (Handle 1), Fire (Handle 1)] (scenario_widget, fresh_host)
       = Inr scenario_expired
   \<and> interval (fst scenario_expired) = Some (Handle 1)
   \<and> pause scenario_expired =
       ((fst scenario_expired)\<lparr>interval := None\<rparr>, (snd scenario_expired)\<lparr>timers := []\<rparr>)
   \<and> remainingTime (fst (start (pause scenario_expired))) = 0"
proof -
  have tm: "timers fresh_host = []" by simp
  have le: "(3::int) \<le> 2 ^ 53" by simp
  from pause_keeps_remaining [OF scenario_new tm scenario_run le] scenario_new scenario_run
  show ?thesis by simp
qed

text \<open>
  C8. In every state reached from construction (after any ticks, after completion):
  \<open>reset\<close> leaves no handle and no live timer, puts the remaining time back to the
  constructed duration, displays the formatted duration, takes the class \<open>complete\<close>
  off the element and calls no callback; a passing second changes nothing afterwards.
\<close>

theorem reset_restores:
  assumes "Timeable_new document elementId dur opts h0 = (Widget t0, h1)"
    and "timers h0 = []"
    and "run acts (t0, h1) = Inr (t, h)"
  shows "interval (fst (reset (t, h))) = None
      \<and> timers (snd (reset (t, h))) = []
      \<and> remainingTime (fst (reset (t, h))) = dur
      \<and> duration (fst (reset (t, h))) = dur
      \<and> innerText (element (fst (reset (t, h)))) = formatTime (format t0) dur
      \<and> ''complete'' \<notin> set (classList (element (fst (reset (t, h)))))
      \<and> calls (snd (reset (t, h))) = calls h
      \<and> elapse (reset (t, h)) = Inr (reset (t, h))"
proof -
  from assms(1,2) have "sync (t0, h1)" by (rule Timeable_new_sync)
  from run_sync [OF assms(3) this] have sy: "sync (t, h)" .
  from run_fixed [OF assms(3)] assms(1)
  have fx: "duration t = dur" "format t = format t0" by (simp_all add: Timeable_new_Widget)
  have tm: "timers (snd (reset (t, h))) = []" using pause_sync [OF sy] by simp
  then have el: "elapse (reset (t, h)) = Inr (reset (t, h))" by (simp add: elapse_def)
  have "''complete'' \<notin> set (classList (element (fst (reset (t, h)))))"
    by (simp add: classList_remove_def)
  with tm el fx show ?thesis by simp
qed

theorem reset_restores_witness:
  "Timeable_new page ''timer'' 3 scenario_options fresh_host = (Widget scenario_widget, fresh_host)
   \<and> timers fresh_host = []
   \<and> run [Start, Fire (Handle 1), Fire (Handle 1), Fire (Handle 1), Fire (Handle 1)]
         (scenario_widget, fresh_host)
       = Inr scenario_completed
   \<and> interval (fst (reset scenario_completed)) = None
   \<and> timers (snd (reset scenario_completed)) = []
   \<and> remainingTime (fst (reset scenario_completed)) = 3
   \<and> innerText (element (fst (reset scenario_completed))) = ''00:03''
   \<and> ''complete'' \<notin> set (classList (element (fst (reset scenario_completed))))"
proof -
  have tm: "timers fresh_host = []" by simp
  from reset_restores [OF scenario_new tm scenario_run_completed]
    scenario_new scenario_run_completed
  show ?thesis by (simp add: format_eval)
qed

section \<open>Construction\<close>

text \<open>
  C9. With no element under the identifier the constructor writes the error to the
  console and returns the instance without fields; nothing is scheduled, called or
  rendered, and \<open>initializeTimer\<close> returns \<^verbatim>\<open>null\<close>. \<open>initializeTimer\<close> returns
  \<^verbatim>\<open>null\<close> in that case only: with an element it returns the constructed widget,
  started (a fresh handle, one more live timer).
\<close>

theorem construction_without_element:
  "(document elementId = None \<longrightarrow>
      Timeable_new document elementId dur opts h =
        (NoElement, h\<lparr>console := console h @ [ConsoleError (not_found_msg elementId)]\<rparr>)
      \<and> initializeTimer document elementId dur opts h =
        (None, h\<lparr>console := console h @ [ConsoleError (not_found_msg elementId)]\<rparr>))
   \<and> ((fst (initializeTimer document elementId dur opts h) = None) = (document elementId = None))
   \<and> (\<forall>el. document elementId = Some el \<longrightarrow>
         (\<exists>t. Timeable_new document elementId dur opts h = (Widget t, h)
            \<and> initializeTimer document elementId dur opts h =
                (Some (fst (start (t, h))), snd (start (t, h)))
            \<and> start (t, h) =
                (t\<lparr>interval := Some (Handle (next_handle h))\<rparr>,
                 h\<lparr>timers := timers h @ [Handle (next_handle h)],
                   next_handle := Suc (next_handle h)\<rparr>)))"
  by (auto simp: Timeable_new_def initializeTimer_def console_error_def start_def setInterval_def
      render_def Let_def split: option.splits prod.splits)

theorem construction_without_element_witness:
  "Map.empty ''timer'' = (None :: dom_element option)
   \<and> Timeable_new Map.empty ''timer'' 3 scenario_options fresh_host =
       (NoElement, fresh_host\<lparr>console :=
          [ConsoleError ''Timeable Error: Element with ID 'timer' not found.'']\<rparr>)
   \<and> initializeTimer Map.empty ''timer'' 3 scenario_options fresh_host =
       (None, fresh_host\<lparr>console :=
          [ConsoleError ''Timeable Error: Element with ID 'timer' not found.'']\<rparr>)
   \<and> page ''timer'' = Some \<lparr>classList = [], innerText = []\<rparr>
   \<and> initializeTimer page ''timer'' 3 scenario_options fresh_host =
       (Some (scenario_widget\<lparr>interval := Some (Handle 1)\<rparr>),
        fresh_host\<lparr>timers := [Handle 1], next_handle := 2\<rparr>)"
  using construction_without_element [of Map.empty "''timer''" 3 scenario_options fresh_host]
    construction_without_element [of page "''timer''" 3 scenario_options fresh_host]
  by (simp add: not_found_msg_def widget_eval format_eval)

text \<open>
  C10. After a successful construction a callback option that is not a function is
  stored as \<^verbatim>\<open>null\<close>; no sequence of method calls and timer firings throws; and the
  widget is built and runs as with the options that leave such a callback out (up to
  the stored options object itself).
\<close>

theorem non_function_callbacks:
  assumes "Timeable_new document elementId dur opts h0 = (Widget t0, h1)"
  shows "(\<not> is_function (opt_onComplete opts) \<longrightarrow> onComplete t0 = JNull)
      \<and> (\<not> is_function (opt_onTick opts) \<longrightarrow> onTick t0 = JNull)
      \<and> Timeable_new document elementId dur (drop_non_functions opts) h0 =
           (Widget (t0\<lparr>options := drop_non_functions opts\<rparr>), h1)
      \<and> (\<forall>acts. \<exists>s. run acts (t0, h1) = Inr s
            \<and> run acts (t0\<lparr>options := drop_non_functions opts\<rparr>, h1) =
                Inr (with_options (drop_non_functions opts) s))"
proof -
  note f = Timeable_new_Widget [OF assms]
  have 1: "\<not> is_function (opt_onComplete opts) \<longrightarrow> onComplete t0 = JNull" by (simp add: f)
  have 2: "\<not> is_function (opt_onTick opts) \<longrightarrow> onTick t0 = JNull" by (simp add: f)
  have 3: "Timeable_new document elementId dur (drop_non_functions opts) h0 =
      (Widget (t0\<lparr>options := drop_non_functions opts\<rparr>), h1)"
    using assms
    by (auto simp: Timeable_new_def drop_non_functions_def render_def Let_def
        split: option.splits)
  have 4: "\<forall>acts. \<exists>s. run acts (t0, h1) = Inr s
      \<and> run acts (t0\<lparr>options := drop_non_functions opts\<rparr>, h1) =
          Inr (with_options (drop_non_functions opts) s)"
  proof
    fix acts
    from assms have "callbacks_ok (fst (t0, h1))" by (simp add: Timeable_new_callbacks_ok)
    from run_ok [OF this] obtain s where s: "run acts (t0, h1) = Inr s" by blast
    from run_options [of acts "drop_non_functions opts" "(t0, h1)"] s
    have "run acts (t0\<lparr>options := drop_non_functions opts\<rparr>, h1) =
        Inr (with_options (drop_non_functions opts) s)"
      by (simp add: with_options_def)
    with s show "\<exists>s. run acts (t0, h1) = Inr s
      \<and> run acts (t0\<lparr>options := drop_non_functions opts\<rparr>, h1) =
          Inr (with_options (drop_non_functions opts) s)" by blast
  qed
  from 1 2 3 4 show ?thesis by blast
qed

theorem non_function_callbacks_witness:
  "Timeable_new page ''timer'' 3 careless_options fresh_host = (Widget careless_widget, fresh_host)
   \<and> \<not> is_function (opt_onComplete careless_options)
   \<and> \<not> is_function (opt_onTick careless_options)
   \<and> onComplete careless_widget = JNull
   \<and> onTick careless_widget = JNull
   \<and> (\<exists>s. run [Start, Fire (Handle 1), Fire (Handle 1), Fire (Handle 1), Fire (Handle 1)]
          (careless_widget, fresh_host) = Inr s)"
proof -
  from non_function_callbacks [OF careless_new]
  have "\<exists>s. run [Start, Fire (Handle 1), Fire (Handle 1), Fire (Handle 1), Fire (Handle 1)]
          (careless_widget, fresh_host) = Inr s"
    by blast
  with careless_new show ?thesis by simp
qed

end
